theory Spec2Isabelle
  imports Main
begin

section \<open>Python values reaching the JSON encoder\<close>

text \<open>
  The script \<^verbatim>\<open>convert_lm.py\<close> hands the object returned by \<^verbatim>\<open>xmltodict.parse\<close> to
  \<^verbatim>\<open>json.dumps\<close>. The objects the encoder can meet are modelled by one datatype.
  Floating-point numbers are kept abstract (the type parameter \<open>'f\<close>): the script never
  computes with them, it only passes them on.

  \<^item> \<open>PStr\<close>, \<open>PNone\<close>, \<open>PBool\<close>, \<open>PInt\<close>, \<open>PFloat\<close>, \<open>PList\<close>, \<open>PDict\<close>: the built-in
    \<^verbatim>\<open>str\<close>, \<^verbatim>\<open>None\<close>, \<^verbatim>\<open>bool\<close>, \<^verbatim>\<open>int\<close>, \<^verbatim>\<open>float\<close>, \<^verbatim>\<open>list\<close> and \<^verbatim>\<open>dict\<close> (keys are
    \<^verbatim>\<open>str\<close>, in insertion order, as \<^verbatim>\<open>xmltodict\<close> builds them);
  \<^item> \<open>NpInteger i\<close>: an instance of \<^verbatim>\<open>numpy.integer\<close> with \<^verbatim>\<open>int(obj) = i\<close>;
  \<^item> \<open>NpFloat64 f\<close>: a \<^verbatim>\<open>numpy.float64\<close>, which is an instance of \<^verbatim>\<open>numpy.floating\<close> and
    also of the built-in \<^verbatim>\<open>float\<close>, with \<^verbatim>\<open>float(obj) = f\<close>;
  \<^item> \<open>NpFloating f\<close>: an instance of any other \<^verbatim>\<open>numpy.floating\<close> type (not a built-in
    \<^verbatim>\<open>float\<close>), with \<^verbatim>\<open>float(obj) = f\<close>;
  \<^item> \<open>NdArray xs\<close>: a \<^verbatim>\<open>numpy.ndarray\<close> of one or more dimensions, for which
    \<^verbatim>\<open>obj.tolist()\<close> is the list \<open>xs\<close>;
  \<^item> \<open>NdArray0 v\<close>: a \<^verbatim>\<open>numpy.ndarray\<close> of no dimension (such as \<^verbatim>\<open>numpy.array(5)\<close>), for
    which \<^verbatim>\<open>obj.tolist()\<close> is not a list but the one value \<open>v\<close> the array holds;
  \<^item> \<open>PObject t\<close>: an object of any other type, \<open>t\<close> being the name of its type.
\<close>

datatype 'f pyval =
    PStr string
  | PNone
  | PBool bool
  | PInt int
  | PFloat 'f
  | PList "'f pyval list"
  | PDict "(string \<times> 'f pyval) list"
  | NpInteger int
  | NpFloat64 'f
  | NpFloating 'f
  | NdArray "'f pyval list"
  | NdArray0 "'f pyval"
  | PObject string

text \<open>The three failures that end a run; an uncaught exception of the script is one of them.\<close>

datatype error = ParseError | SerializationError | IOError

text \<open>A JSON document, as the encoder lays it out.\<close>

datatype 'f json =
    JNull
  | JBool bool
  | JInt int
  | JFloat 'f
  | JStr string
  | JArr "'f json list"
  | JObj "(string \<times> 'f json) list"

section \<open>The encoder classes\<close>

text \<open>
  \<^verbatim>\<open>json.JSONEncoder.default\<close> raises \<^verbatim>\<open>TypeError\<close> for every object.
\<close>

definition JSONEncoder_default :: "'f pyval \<Rightarrow> error + 'f pyval" where
  "JSONEncoder_default obj = Inl SerializationError"

text \<open>
  \<^verbatim>\<open>
  class MyEncoder(json.JSONEncoder):
      def default(self, obj):
          if isinstance(obj, numpy.integer):
              return int(obj)
          elif isinstance(obj, numpy.floating):
              return float(obj)
          elif isinstance(obj, numpy.ndarray):
              return obj.tolist()
          else:
              return super(MyEncoder, self).default(obj)
  \<close>
\<close>

fun MyEncoder_default :: "'f pyval \<Rightarrow> error + 'f pyval" where
  "MyEncoder_default (NpInteger i) = Inr (PInt i)"
| "MyEncoder_default (NpFloat64 f) = Inr (PFloat f)"
| "MyEncoder_default (NpFloating f) = Inr (PFloat f)"
| "MyEncoder_default (NdArray xs) = Inr (PList xs)"
| "MyEncoder_default (NdArray0 v) = Inr v"
| "MyEncoder_default obj = JSONEncoder_default obj"

datatype encoder_cls = JSONEncoder | MyEncoder

fun default :: "encoder_cls \<Rightarrow> 'f pyval \<Rightarrow> error + 'f pyval" where
  "default JSONEncoder obj = JSONEncoder_default obj"
| "default MyEncoder obj = MyEncoder_default obj"

text \<open>A size that \<open>default\<close> decreases; it bounds the encoder's recursion.\<close>

fun rank :: "'f pyval \<Rightarrow> nat"
  and rank_list :: "'f pyval list \<Rightarrow> nat"
  and rank_items :: "(string \<times> 'f pyval) list \<Rightarrow> nat" where
  "rank (PList xs) = Suc (rank_list xs)"
| "rank (PDict kvs) = Suc (rank_items kvs)"
| "rank (NdArray xs) = Suc (Suc (rank_list xs))"
| "rank (NdArray0 v) = Suc (rank v)"
| "rank (NpInteger i) = 1"
| "rank (NpFloat64 f) = 1"
| "rank (NpFloating f) = 1"
| "rank (PStr s) = 0"
| "rank PNone = 0"
| "rank (PBool b) = 0"
| "rank (PInt i) = 0"
| "rank (PFloat f) = 0"
| "rank (PObject t) = 0"
| "rank_list [] = 0"
| "rank_list (x # xs) = Suc (rank x + rank_list xs)"
| "rank_items [] = 0"
| "rank_items (kv # kvs) = Suc (rank (snd kv) + rank_items kvs)"

text \<open>
  The dispatch of \<^verbatim>\<open>json.JSONEncoder\<close> (Python's standard library, called by the script):
  \<^verbatim>\<open>str\<close>, \<^verbatim>\<open>None\<close>, \<^verbatim>\<open>True\<close>, \<^verbatim>\<open>False\<close>, \<^verbatim>\<open>int\<close>, \<^verbatim>\<open>float\<close>, \<^verbatim>\<open>list\<close> and \<^verbatim>\<open>dict\<close> are encoded
  directly, in this order of tests; for any other object the encoder calls the
  \<^verbatim>\<open>default\<close> method of its class and encodes what that returns. A \<^verbatim>\<open>numpy.float64\<close> passes
  the test \<^verbatim>\<open>isinstance(o, float)\<close>.
\<close>

function (sequential) encode :: "encoder_cls \<Rightarrow> 'f pyval \<Rightarrow> error + 'f json"
  and encode_list :: "encoder_cls \<Rightarrow> 'f pyval list \<Rightarrow> error + 'f json list"
  and encode_dict :: "encoder_cls \<Rightarrow> (string \<times> 'f pyval) list \<Rightarrow> error + (string \<times> 'f json) list" where
  "encode cls (PStr s) = Inr (JStr s)"
| "encode cls PNone = Inr JNull"
| "encode cls (PBool b) = Inr (JBool b)"
| "encode cls (PInt i) = Inr (JInt i)"
| "encode cls (PFloat f) = Inr (JFloat f)"
| "encode cls (NpFloat64 f) = Inr (JFloat f)"
| "encode cls (PList xs) =
     (case encode_list cls xs of Inl e \<Rightarrow> Inl e | Inr js \<Rightarrow> Inr (JArr js))"
| "encode cls (PDict kvs) =
     (case encode_dict cls kvs of Inl e \<Rightarrow> Inl e | Inr ms \<Rightarrow> Inr (JObj ms))"
| "encode cls obj =
     (case default cls obj of Inl e \<Rightarrow> Inl e | Inr obj' \<Rightarrow> encode cls obj')"
| "encode_list cls [] = Inr []"
| "encode_list cls (x # xs) =
     (case encode cls x of Inl e \<Rightarrow> Inl e
      | Inr j \<Rightarrow> (case encode_list cls xs of Inl e \<Rightarrow> Inl e | Inr js \<Rightarrow> Inr (j # js)))"
| "encode_dict cls [] = Inr []"
| "encode_dict cls (kv # kvs) =
     (case encode cls (snd kv) of Inl e \<Rightarrow> Inl e
      | Inr j \<Rightarrow> (case encode_dict cls kvs of Inl e \<Rightarrow> Inl e
                 | Inr ms \<Rightarrow> Inr ((fst kv, j) # ms)))"
  by pat_completeness auto
termination
  by (relation "measure (\<lambda>a. case a of
        Inl (cls, v) \<Rightarrow> rank v
      | Inr (Inl (cls, vs)) \<Rightarrow> rank_list vs
      | Inr (Inr (cls, kvs)) \<Rightarrow> rank_items kvs)")
     (auto simp: JSONEncoder_default_def elim!: default.elims)

section \<open>Library functions the script calls\<close>

text \<open>
  The functions of \<^verbatim>\<open>lxml\<close>, \<^verbatim>\<open>xmltodict\<close> and of the text layer of \<^verbatim>\<open>json\<close> that the script
  calls are parameters of the model:
  \<^item> \<open>etree_parse\<close>: the XML parser on the bytes of a file, \<open>None\<close> when they are not
    well-formed XML (\<open>'t\<close> is the type of parsed trees);
  \<^item> \<open>etree_tostring\<close>: \<^verbatim>\<open>etree.tostring\<close>;
  \<^item> \<open>xmltodict_parse\<close>: \<^verbatim>\<open>xmltodict.parse\<close> with its default arguments;
  \<^item> \<open>floatstr\<close>: the encoder's rendering of a float (\<^verbatim>\<open>float.__repr__\<close>, and the words
    it writes for the values that are not numbers);
  \<^item> \<open>encode_basestring_ascii\<close>: the encoder's rendering of a string, quotes and escapes
    included.
\<close>

record ('t, 'f) libs =
  etree_parse :: "string \<Rightarrow> 't option"
  etree_tostring :: "'t \<Rightarrow> string"
  xmltodict_parse :: "string \<Rightarrow> 'f pyval"
  floatstr :: "'f \<Rightarrow> string"
  encode_basestring_ascii :: "string \<Rightarrow> string"

section \<open>The text of a JSON document\<close>

text \<open>\<^verbatim>\<open>int.__repr__\<close>: decimal digits, with a minus sign for a negative number.\<close>

function digits :: "nat \<Rightarrow> string" where
  "digits n =
     (if n < 10 then [''0123456789'' ! n]
      else digits (n div 10) @ [''0123456789'' ! (n mod 10)])"
  by pat_completeness auto
termination
  by (relation "measure (\<lambda>n. n)") auto

definition intstr :: "int \<Rightarrow> string" where
  "intstr i = (if i < 0 then CHR ''-'' # digits (nat (- i)) else digits (nat i))"

text \<open>
  The layout of \<^verbatim>\<open>json.dumps(..., indent=n)\<close>: every element of a non-empty array and every
  member of a non-empty object on a line of its own, \<open>n\<close> spaces deeper than its parent;
  the separators are \<^verbatim>\<open>","\<close> and \<^verbatim>\<open>": "\<close>; an empty array is \<^verbatim>\<open>[]\<close> and an empty object
  \<^verbatim>\<open>{}\<close>.
\<close>

definition newline_indent :: "nat \<Rightarrow> nat \<Rightarrow> string" where
  "newline_indent ind level = CHR 0x0A # replicate (ind * level) CHR '' ''"

fun render :: "('t, 'f) libs \<Rightarrow> nat \<Rightarrow> nat \<Rightarrow> 'f json \<Rightarrow> string"
  and render_elems :: "('t, 'f) libs \<Rightarrow> nat \<Rightarrow> nat \<Rightarrow> 'f json list \<Rightarrow> string"
  and render_members :: "('t, 'f) libs \<Rightarrow> nat \<Rightarrow> nat \<Rightarrow> (string \<times> 'f json) list \<Rightarrow> string" where
  "render lib ind level JNull = ''null''"
| "render lib ind level (JBool b) = (if b then ''true'' else ''false'')"
| "render lib ind level (JInt i) = intstr i"
| "render lib ind level (JFloat f) = floatstr lib f"
| "render lib ind level (JStr s) = encode_basestring_ascii lib s"
| "render lib ind level (JArr []) = ''[]''"
| "render lib ind level (JArr (x # xs)) =
     ''['' @ newline_indent ind (Suc level) @ render_elems lib ind (Suc level) (x # xs)
       @ newline_indent ind level @ '']''"
| "render lib ind level (JObj []) = ''{}''"
| "render lib ind level (JObj (m # ms)) =
     ''{'' @ newline_indent ind (Suc level) @ render_members lib ind (Suc level) (m # ms)
       @ newline_indent ind level @ ''}''"
| "render_elems lib ind level [] = []"
| "render_elems lib ind level [x] = render lib ind level x"
| "render_elems lib ind level (x # xs) =
     render lib ind level x @ '','' @ newline_indent ind level @ render_elems lib ind level xs"
| "render_members lib ind level [] = []"
| "render_members lib ind level [m] =
     encode_basestring_ascii lib (fst m) @ '': '' @ render lib ind level (snd m)"
| "render_members lib ind level (m # ms) =
     encode_basestring_ascii lib (fst m) @ '': '' @ render lib ind level (snd m)
       @ '','' @ newline_indent ind level @ render_members lib ind level ms"

text \<open>\<^verbatim>\<open>json.dumps(obj, indent=ind, cls=cls)\<close>: the text, or the encoder's exception.\<close>

definition dumps :: "('t, 'f) libs \<Rightarrow> encoder_cls \<Rightarrow> nat \<Rightarrow> 'f pyval \<Rightarrow> error + string" where
  "dumps lib cls ind obj =
     (case encode cls obj of Inl e \<Rightarrow> Inl e | Inr j \<Rightarrow> Inr (render lib ind 0 j))"

section \<open>Paths\<close>

text \<open>
  \<^verbatim>\<open>os.path.dirname\<close> (POSIX): everything up to the last slash, trailing slashes removed
  unless nothing else is left.
\<close>

definition dirname :: "string \<Rightarrow> string" where
  "dirname p =
     (let i = length p - length (takeWhile (\<lambda>c. c \<noteq> CHR ''/'') (rev p));
          head = take i p
      in if head \<noteq> [] \<and> head \<noteq> replicate (length head) CHR ''/''
         then rev (dropWhile (\<lambda>c. c = CHR ''/'') (rev head))
         else head)"

text \<open>\<^verbatim>\<open>os.path.join(a, b)\<close> (POSIX) for two components.\<close>

definition join :: "string \<Rightarrow> string \<Rightarrow> string" where
  "join a b =
     (if b \<noteq> [] \<and> hd b = CHR ''/'' then b
      else if a = [] \<or> last a = CHR ''/'' then a @ b
      else a @ ''/'' @ b)"

text \<open>
  \<^verbatim>\<open>data_path = os.path.dirname(os.path.realpath(__file__))\<close>; the argument is the real path
  of the script file.
\<close>

definition data_path :: "string \<Rightarrow> string" where
  "data_path script = dirname script"

definition input_path :: "string \<Rightarrow> string" where
  "input_path script = join (data_path script) ''votable_to_json.xml''"

definition output_path :: "string \<Rightarrow> string" where
  "output_path script = join (data_path script) ''votable_to_json.json''"

text \<open>
  Replacing the extension of a path, as the specification words it (\<^verbatim>\<open>name.xml\<close> becomes
  \<^verbatim>\<open>name.json\<close>). \<open>splitext\<close> is \<^verbatim>\<open>os.path.splitext\<close>: the extension starts at the last dot
  of the last component, a component made of leading dots only having none.
\<close>

definition splitext :: "string \<Rightarrow> string \<times> string" where
  "splitext p =
     (let base = rev (takeWhile (\<lambda>c. c \<noteq> CHR ''/'') (rev p));
          ext = rev (takeWhile (\<lambda>c. c \<noteq> CHR ''.'') (rev base));
          stem = take (length base - length ext - 1) base
      in if CHR ''.'' \<in> set base \<and> list_ex (\<lambda>c. c \<noteq> CHR ''.'') stem
         then (take (length p - length ext - 1) p, CHR ''.'' # ext)
         else (p, []))"

definition replace_extension :: "string \<Rightarrow> string \<Rightarrow> string" where
  "replace_extension p ext = fst (splitext p) @ ext"

section \<open>The run of the script\<close>

text \<open>
  What a run can observe and change: the files (path to content), which paths can be read
  and which can be opened for writing, and the events of the run so far, in order.
  \<open>Print s\<close> is \<^verbatim>\<open>print(s)\<close>; \<open>Open p\<close>, \<open>Write p s\<close> and \<open>Close p\<close> are the steps of
  \<^verbatim>\<open>with open(p, 'w') as file: file.write(s)\<close>.
\<close>

datatype event = Print string | Open string | Write string string | Close string

record world =
  files :: "string \<Rightarrow> string option"
  readable :: "string \<Rightarrow> bool"
  writable :: "string \<Rightarrow> bool"
  events :: "event list"

datatype outcome = Done | Failed error

text \<open>The exit status of the interpreter: 0, or 1 after an uncaught exception.\<close>

fun exit_code :: "outcome \<Rightarrow> nat" where
  "exit_code Done = 0"
| "exit_code (Failed e) = 1"

text \<open>
  \<^verbatim>\<open>etree.parse(path)\<close> raises when the file is missing, cannot be read or is not well-formed
  XML; the failure of this step is the \<open>ParseError\<close> of the model, whichever exception
  class \<^verbatim>\<open>lxml\<close> uses for it.
\<close>

definition etree_parse_file :: "('t, 'f) libs \<Rightarrow> world \<Rightarrow> string \<Rightarrow> error + 't" where
  "etree_parse_file lib w path =
     (case files w path of
        None \<Rightarrow> Inl ParseError
      | Some bytes \<Rightarrow>
          if \<not> readable w path then Inl ParseError
          else (case etree_parse lib bytes of
                  None \<Rightarrow> Inl ParseError
                | Some tree \<Rightarrow> Inr tree))"

text \<open>\<^verbatim>\<open>print(s)\<close> writes \<open>s\<close> and a newline to standard output.\<close>

definition print :: "string \<Rightarrow> world \<Rightarrow> world" where
  "print s w = w\<lparr>events := events w @ [Print s]\<rparr>"

fun stdout_of :: "event list \<Rightarrow> string" where
  "stdout_of [] = []"
| "stdout_of (Print s # es) = s @ [CHR 0x0A] @ stdout_of es"
| "stdout_of (e # es) = stdout_of es"

text \<open>
  \<^verbatim>\<open>open(path, 'w')\<close> creates the file or truncates it to length zero; it raises
  \<^verbatim>\<open>OSError\<close> when the path cannot be opened for writing.
\<close>

definition open_w :: "string \<Rightarrow> world \<Rightarrow> error + world" where
  "open_w path w =
     (if writable w path
      then Inr (w\<lparr>files := (files w)(path \<mapsto> []), events := events w @ [Open path]\<rparr>)
      else Inl IOError)"

definition file_write :: "string \<Rightarrow> string \<Rightarrow> world \<Rightarrow> world" where
  "file_write path s w =
     w\<lparr>files := (files w)(path \<mapsto> (case files w path of None \<Rightarrow> s | Some old \<Rightarrow> old @ s)),
       events := events w @ [Write path s]\<rparr>"

definition close :: "string \<Rightarrow> world \<Rightarrow> world" where
  "close path w = w\<lparr>events := events w @ [Close path]\<rparr>"

text \<open>
  \<^verbatim>\<open>
  data_path = os.path.dirname(os.path.realpath(__file__))

  xml_block = etree.parse(
      os.path.join(data_path, "votable_to_json.xml"))
  raw_json = xmltodict.parse(etree.tostring(xml_block))
  pretty_json = json.dumps(raw_json,
                            indent=2,
                            cls=MyEncoder)
  print(pretty_json)

  with open(os.path.join(data_path, "votable_to_json.json"), 'w') as file:
                  file.write(json.dumps(raw_json, indent=2))
  \<close>
  The argument of \<^verbatim>\<open>file.write\<close> is evaluated after the file has been opened; the \<^verbatim>\<open>with\<close>
  statement closes the file on every way out of its body.
\<close>

definition raw_json_of :: "('t, 'f) libs \<Rightarrow> 't \<Rightarrow> 'f pyval" where
  "raw_json_of lib xml_block = xmltodict_parse lib (etree_tostring lib xml_block)"

definition run :: "('t, 'f) libs \<Rightarrow> string \<Rightarrow> world \<Rightarrow> outcome \<times> world" where
  "run lib script w =
     (case etree_parse_file lib w (input_path script) of
        Inl e \<Rightarrow> (Failed e, w)
      | Inr xml_block \<Rightarrow>
          let raw_json = raw_json_of lib xml_block in
          (case dumps lib MyEncoder 2 raw_json of
             Inl e \<Rightarrow> (Failed e, w)
           | Inr pretty_json \<Rightarrow>
               let w1 = print pretty_json w in
               (case open_w (output_path script) w1 of
                  Inl e \<Rightarrow> (Failed e, w1)
                | Inr w2 \<Rightarrow>
                    (case dumps lib JSONEncoder 2 raw_json of
                       Inl e \<Rightarrow> (Failed e, close (output_path script) w2)
                     | Inr text \<Rightarrow>
                         (Done, close (output_path script)
                                  (file_write (output_path script) text w2))))))"

section \<open>Properties of Python values\<close>

text \<open>
  \<open>supported obj\<close>: every value in \<open>obj\<close> (the elements of lists and of arrays and the
  values of dictionaries included) is a string, a number, a boolean, \<^verbatim>\<open>None\<close>, a mapping, a
  sequence, a \<^verbatim>\<open>numpy.integer\<close>, a \<^verbatim>\<open>numpy.floating\<close> or a \<^verbatim>\<open>numpy.ndarray\<close>.
\<close>

fun supported :: "'f pyval \<Rightarrow> bool"
  and supported_list :: "'f pyval list \<Rightarrow> bool"
  and supported_items :: "(string \<times> 'f pyval) list \<Rightarrow> bool" where
  "supported (PObject t) = False"
| "supported (PList xs) = supported_list xs"
| "supported (PDict kvs) = supported_items kvs"
| "supported (NdArray xs) = supported_list xs"
| "supported (NdArray0 v) = supported v"
| "supported (PStr s) = True"
| "supported PNone = True"
| "supported (PBool b) = True"
| "supported (PInt i) = True"
| "supported (PFloat f) = True"
| "supported (NpInteger i) = True"
| "supported (NpFloat64 f) = True"
| "supported (NpFloating f) = True"
| "supported_list [] = True"
| "supported_list (x # xs) = (supported x \<and> supported_list xs)"
| "supported_items [] = True"
| "supported_items (kv # kvs) = (supported (snd kv) \<and> supported_items kvs)"

text \<open>
  The plain JSON value of a Python value under the numeric fallback: integers to JSON
  integers, floating-point values to JSON numbers, arrays of one or more dimensions to
  JSON arrays, recursively; an array of no dimension has the JSON value of the one value
  it holds. (An object of another type has none; the function is only used on supported
  values.)
\<close>

fun plain_json :: "'f pyval \<Rightarrow> 'f json" where
  "plain_json (PStr s) = JStr s"
| "plain_json PNone = JNull"
| "plain_json (PBool b) = JBool b"
| "plain_json (PInt i) = JInt i"
| "plain_json (PFloat f) = JFloat f"
| "plain_json (PList xs) = JArr (map plain_json xs)"
| "plain_json (PDict kvs) = JObj (map (\<lambda>kv. (fst kv, plain_json (snd kv))) kvs)"
| "plain_json (NpInteger i) = JInt i"
| "plain_json (NpFloat64 f) = JFloat f"
| "plain_json (NpFloating f) = JFloat f"
| "plain_json (NdArray xs) = JArr (map plain_json xs)"
| "plain_json (NdArray0 v) = plain_json v"
| "plain_json (PObject t) = JNull"

text \<open>
  \<open>contains_numpy obj\<close>: some value in \<open>obj\<close> is a \<^verbatim>\<open>numpy.integer\<close>, a \<^verbatim>\<open>numpy.floating\<close>
  or a \<^verbatim>\<open>numpy.ndarray\<close>. \<open>needs_fallback obj\<close>: some value in \<open>obj\<close> is one that the
  encoder does not encode by itself, that is a \<^verbatim>\<open>numpy.integer\<close>, a \<^verbatim>\<open>numpy.ndarray\<close> or a
  \<^verbatim>\<open>numpy.floating\<close> that is not a built-in \<^verbatim>\<open>float\<close>.
\<close>

fun contains_numpy :: "'f pyval \<Rightarrow> bool"
  and contains_numpy_list :: "'f pyval list \<Rightarrow> bool"
  and contains_numpy_items :: "(string \<times> 'f pyval) list \<Rightarrow> bool" where
  "contains_numpy (NpInteger i) = True"
| "contains_numpy (NpFloat64 f) = True"
| "contains_numpy (NpFloating f) = True"
| "contains_numpy (NdArray xs) = True"
| "contains_numpy (NdArray0 v) = True"
| "contains_numpy (PList xs) = contains_numpy_list xs"
| "contains_numpy (PDict kvs) = contains_numpy_items kvs"
| "contains_numpy (PStr s) = False"
| "contains_numpy PNone = False"
| "contains_numpy (PBool b) = False"
| "contains_numpy (PInt i) = False"
| "contains_numpy (PFloat f) = False"
| "contains_numpy (PObject t) = False"
| "contains_numpy_list [] = False"
| "contains_numpy_list (x # xs) = (contains_numpy x \<or> contains_numpy_list xs)"
| "contains_numpy_items [] = False"
| "contains_numpy_items (kv # kvs) = (contains_numpy (snd kv) \<or> contains_numpy_items kvs)"

fun needs_fallback :: "'f pyval \<Rightarrow> bool"
  and needs_fallback_list :: "'f pyval list \<Rightarrow> bool"
  and needs_fallback_items :: "(string \<times> 'f pyval) list \<Rightarrow> bool" where
  "needs_fallback (NpInteger i) = True"
| "needs_fallback (NpFloating f) = True"
| "needs_fallback (NdArray xs) = True"
| "needs_fallback (NdArray0 v) = True"
| "needs_fallback (PList xs) = needs_fallback_list xs"
| "needs_fallback (PDict kvs) = needs_fallback_items kvs"
| "needs_fallback (PStr s) = False"
| "needs_fallback PNone = False"
| "needs_fallback (PBool b) = False"
| "needs_fallback (PInt i) = False"
| "needs_fallback (PFloat f) = False"
| "needs_fallback (NpFloat64 f) = False"
| "needs_fallback (PObject t) = False"
| "needs_fallback_list [] = False"
| "needs_fallback_list (x # xs) = (needs_fallback x \<or> needs_fallback_list xs)"
| "needs_fallback_items [] = False"
| "needs_fallback_items (kv # kvs) = (needs_fallback (snd kv) \<or> needs_fallback_items kvs)"

text \<open>The texts printed by a sequence of events, in order.\<close>

fun prints :: "event list \<Rightarrow> string list" where
  "prints [] = []"
| "prints (Print s # es) = s # prints es"
| "prints (e # es) = prints es"

text \<open>
  What \<open>join a b\<close> puts in front of a relative \<open>b\<close>: the directory \<open>a\<close> with the slash
  that separates it from \<open>b\<close> (used in the lemmas on paths).
\<close>

definition dir_prefix :: "string \<Rightarrow> string" where
  "dir_prefix a = (if a = [] \<or> last a = CHR ''/'' then a else a @ ''/'')"

section \<open>Example inputs\<close>

text \<open>
  A library whose \<^verbatim>\<open>xmltodict.parse\<close> returns \<open>raw\<close>, whose XML parser accepts the document
  \<^verbatim>\<open><a/>\<close> only, whose floats are given by their decimal text and whose strings need no
  escapes; and a world where the script \<^verbatim>\<open>/opt/convert_lm.py\<close> finds its input file.
\<close>

definition ex_lib :: "string pyval \<Rightarrow> (string, string) libs" where
  "ex_lib raw =
     \<lparr>etree_parse = (\<lambda>b. if b = ''<a/>'' then Some b else None),
      etree_tostring = (\<lambda>t. t),
      xmltodict_parse = (\<lambda>s. raw),
      floatstr = (\<lambda>f. f),
      encode_basestring_ascii = (\<lambda>s. [CHR 0x22] @ s @ [CHR 0x22])\<rparr>"

definition ex_script :: string where
  "ex_script = ''/opt/convert_lm.py''"

definition ex_world :: world where
  "ex_world =
     \<lparr>files = [''/opt/votable_to_json.xml'' \<mapsto> ''<a/>''],
      readable = (\<lambda>p. True),
      writable = (\<lambda>p. True),
      events = []\<rparr>"

section \<open>The conversion of the document to a mapping\<close>

text \<open>
  Modelled from the spec: \<^verbatim>\<open>xmltodict.parse\<close> belongs to the library \<^verbatim>\<open>xmltodict\<close>, which is
  not among the files of the repository; the script only calls it, with its default
  arguments. The document it reads is a tree rooted at one element, with arbitrary nesting
  depth, attributes and text content. An element has a tag, attributes (name and value),
  its text content (\<open>None\<close> when it has none) and its child elements, in document order.
\<close>

datatype xml = Element (tag: string) (attributes: "(string \<times> string) list")
  (cdata: "string option") (children: "xml list")

text \<open>
  Modelled from the spec: attribute values are stored under keys distinguished from
  child-element keys by a reserved prefix, and the text content of an element that has
  attributes or children under a reserved key. The prefix and the key are the defaults of
  \<^verbatim>\<open>xmltodict\<close>.
\<close>

definition attr_prefix :: string where
  "attr_prefix = ''@''"

definition cdata_key :: string where
  "cdata_key = ''#text''"

text \<open>
  Modelled from the spec: repeated sibling elements become ordered sequences. The value of
  a further element with a tag that the mapping already has is appended: to the sequence
  when there is one, else the earlier value and the new one become a sequence of two.
\<close>

fun append_data :: "'f pyval \<Rightarrow> 'f pyval \<Rightarrow> 'f pyval" where
  "append_data (PList vs) data = PList (vs @ [data])"
| "append_data v data = PList [v, data]"

text \<open>
  Modelled from the spec: element tag names become keys of an ordered mapping. A new key
  goes to the end of the mapping; a key that is there keeps its place and collects the
  values.
\<close>

fun push_data :: "(string \<times> 'f pyval) list \<Rightarrow> string \<Rightarrow> 'f pyval \<Rightarrow> (string \<times> 'f pyval) list" where
  "push_data [] key data = [(key, data)]"
| "push_data (kv # item) key data =
     (if fst kv = key then (key, append_data (snd kv) data) # item
      else kv # push_data item key data)"

text \<open>
  Modelled from the spec: the value of an element is a string (its text content) when it
  has neither attributes nor children, and \<^verbatim>\<open>None\<close> when it has no text either; otherwise
  it is an ordered mapping: the attributes first, under their prefixed names, then the
  values of the child elements under their tags, in document order (nested elements become
  nested mappings), then the text content under its reserved key.
\<close>

fun element_value :: "xml \<Rightarrow> 'f pyval" where
  "element_value (Element t attrs txt kids) =
     (let item = fold (\<lambda>kid item. push_data item (tag kid) (element_value kid)) kids
                   (map (\<lambda>a. (attr_prefix @ fst a, PStr (snd a))) attrs)
      in case item of
           [] \<Rightarrow> (case txt of None \<Rightarrow> PNone | Some s \<Rightarrow> PStr s)
         | _ # _ \<Rightarrow> PDict (case txt of None \<Rightarrow> item
                                 | Some s \<Rightarrow> push_data item cdata_key (PStr s)))"

text \<open>
  Modelled from the spec: \<open>toMapping\<close> turns the document tree into the intermediate
  structure, a mapping with one key, the tag of the root element.
\<close>

definition toMapping :: "xml \<Rightarrow> 'f pyval" where
  "toMapping root = PDict [(tag root, element_value root)]"

text \<open>
  Modelled from the spec: a well-formed document. Names are not empty and start with
  neither of the characters \<^verbatim>\<open>@\<close> and \<^verbatim>\<open>#\<close> (XML allows a letter, an underscore or a colon
  there), and no element has two attributes of one name.
\<close>

definition xml_name :: "string \<Rightarrow> bool" where
  "xml_name n = (n \<noteq> [] \<and> hd n \<noteq> CHR ''@'' \<and> hd n \<noteq> CHR ''#'')"

fun well_formed :: "xml \<Rightarrow> bool" where
  "well_formed (Element t attrs txt kids) =
     (xml_name t \<and> list_all (\<lambda>a. xml_name (fst a)) attrs \<and> distinct (map fst attrs)
      \<and> list_all well_formed kids)"

text \<open>
  Modelled from the spec: the elements of a document (the root and everything nested in
  it, to any depth), and the values of an intermediate structure (the structure itself,
  the values of its keys and the entries of its sequences, to any depth).
\<close>

fun elements :: "xml \<Rightarrow> xml list" where
  "elements (Element t attrs txt kids) = Element t attrs txt kids # concat (map elements kids)"

fun subvalues :: "'f pyval \<Rightarrow> 'f pyval list" where
  "subvalues (PList xs) = PList xs # concat (map subvalues xs)"
| "subvalues (PDict kvs) = PDict kvs # concat (map (\<lambda>kv. subvalues (snd kv)) kvs)"
| "subvalues (NdArray xs) = NdArray xs # concat (map subvalues xs)"
| "subvalues v = [v]"

text \<open>
  Modelled from the spec: the same conversion in the form the lemmas use. \<open>element_item e\<close>
  is the ordered mapping of an element \<open>e\<close> that has attributes or children, and
  \<open>child_items\<close> its part built from the attributes and the children; \<open>collect\<close> is what the
  values pushed under one key add up to.
\<close>

definition child_items :: "xml list \<Rightarrow> (string \<times> 'f pyval) list \<Rightarrow> (string \<times> 'f pyval) list" where
  "child_items kids item0 =
     fold (\<lambda>kid item. push_data item (tag kid) (element_value kid)) kids item0"

definition element_item :: "xml \<Rightarrow> (string \<times> 'f pyval) list" where
  "element_item e =
     (let item = child_items (children e)
                   (map (\<lambda>a. (attr_prefix @ fst a, PStr (snd a))) (attributes e))
      in case cdata e of None \<Rightarrow> item | Some s \<Rightarrow> push_data item cdata_key (PStr s))"

fun collect :: "'f pyval option \<Rightarrow> 'f pyval list \<Rightarrow> 'f pyval option" where
  "collect cur [] = cur"
| "collect None (v # vs) = collect (Some v) vs"
| "collect (Some u) (v # vs) = collect (Some (append_data u v)) vs"

fun is_PList :: "'f pyval \<Rightarrow> bool" where
  "is_PList (PList xs) = True"
| "is_PList v = False"

text \<open>
  Modelled from the spec: the values a mapping holds under its keys, the entries of a
  sequence counted one by one.
\<close>

definition members :: "(string \<times> 'f pyval) list \<Rightarrow> 'f pyval set" where
  "members item = (\<Union>kv\<in>set item. case snd kv of PList xs \<Rightarrow> set xs | v \<Rightarrow> {v})"

text \<open>
  Example documents: \<^verbatim>\<open><a x="1"><b>t</b><c/><b k="v">u</b><x/></a>\<close>, where \<^verbatim>\<open>b\<close> is repeated
  and \<^verbatim>\<open>x\<close> names both an attribute and a child, and \<^verbatim>\<open><a><b/></a>\<close>.
\<close>

definition ex_repeated :: xml where
  "ex_repeated =
     Element ''a'' [(''x'', ''1'')] None
       [Element ''b'' [] (Some ''t'') [], Element ''c'' [] None [],
        Element ''b'' [(''k'', ''v'')] (Some ''u'') [], Element ''x'' [] None []]"

definition ex_single :: xml where
  "ex_single = Element ''a'' [] None [Element ''b'' [] None []]"

text \<open>A document that holds both of them below its root.\<close>

definition ex_nested :: xml where
  "ex_nested = Element ''r'' [] None [ex_repeated, ex_single]"

section \<open>The encoder: lemmas\<close>

lemma encode_error:
  "encode cls (v :: 'f pyval) = Inl e \<Longrightarrow> e = SerializationError"
  "encode_list cls (vs :: 'f pyval list) = Inl e \<Longrightarrow> e = SerializationError"
  "encode_dict cls (kvs :: (string \<times> 'f pyval) list) = Inl e \<Longrightarrow> e = SerializationError"
  by (induction cls v and cls vs and cls kvs rule: encode_encode_list_encode_dict.induct)
     (auto simp: JSONEncoder_default_def split: sum.splits elim!: default.elims)

lemma encode_MyEncoder_supported:
  "supported (v :: 'f pyval) \<Longrightarrow> encode MyEncoder v = Inr (plain_json v)"
  "supported_list (vs :: 'f pyval list) \<Longrightarrow> encode_list MyEncoder vs = Inr (map plain_json vs)"
  "supported_items (kvs :: (string \<times> 'f pyval) list) \<Longrightarrow>
     encode_dict MyEncoder kvs = Inr (map (\<lambda>kv. (fst kv, plain_json (snd kv))) kvs)"
  by (induction v and vs and kvs rule: supported_supported_list_supported_items.induct) auto

lemma encode_unsupported:
  "\<not> supported (v :: 'f pyval) \<Longrightarrow> encode cls v = Inl SerializationError"
  "\<not> supported_list (vs :: 'f pyval list) \<Longrightarrow> encode_list cls vs = Inl SerializationError"
  "\<not> supported_items (kvs :: (string \<times> 'f pyval) list) \<Longrightarrow>
     encode_dict cls kvs = Inl SerializationError"
  apply (induction v and vs and kvs rule: supported_supported_list_supported_items.induct)
  apply (auto simp: JSONEncoder_default_def split: sum.splits dest: encode_error)
  apply (cases cls; auto simp: JSONEncoder_default_def)+
  done

lemma encode_JSONEncoder_MyEncoder:
  "encode JSONEncoder (v :: 'f pyval) = Inr j \<Longrightarrow> encode MyEncoder v = Inr j"
  "encode_list JSONEncoder (vs :: 'f pyval list) = Inr js \<Longrightarrow> encode_list MyEncoder vs = Inr js"
  "encode_dict JSONEncoder (kvs :: (string \<times> 'f pyval) list) = Inr ms \<Longrightarrow>
     encode_dict MyEncoder kvs = Inr ms"
  by (induction v and vs and kvs arbitrary: j and js and ms
        rule: supported_supported_list_supported_items.induct)
     (auto simp: JSONEncoder_default_def split: sum.splits)

lemma dumps_JSONEncoder_MyEncoder:
  "dumps lib JSONEncoder ind v = Inr s \<Longrightarrow> dumps lib MyEncoder ind v = Inr s"
  by (auto simp: dumps_def split: sum.splits dest: encode_JSONEncoder_MyEncoder(1))

section \<open>The run: lemmas\<close>

lemma run_Done_iff:
  "run lib script w = (Done, w') \<longleftrightarrow>
     (\<exists>xml_block pretty written.
        etree_parse_file lib w (input_path script) = Inr xml_block \<and>
        dumps lib MyEncoder 2 (raw_json_of lib xml_block) = Inr pretty \<and>
        dumps lib JSONEncoder 2 (raw_json_of lib xml_block) = Inr written \<and>
        writable w (output_path script) \<and>
        w' = w\<lparr>files := (files w)(output_path script \<mapsto> written),
               events := events w @ [Print pretty, Open (output_path script),
                 Write (output_path script) written, Close (output_path script)]\<rparr>)"
  by (auto simp: run_def Let_def print_def open_w_def file_write_def close_def
           split: sum.splits if_splits)

lemma ex_input_path: "input_path ex_script = ''/opt/votable_to_json.xml''"
  by (simp add: input_path_def data_path_def dirname_def join_def ex_script_def)

lemma ex_output_path: "output_path ex_script = ''/opt/votable_to_json.json''"
  by (simp add: output_path_def data_path_def dirname_def join_def ex_script_def)

lemma ex_parse_file:
  "etree_parse_file (ex_lib raw) ex_world (input_path ex_script) = Inr ''<a/>''"
  by (simp add: ex_input_path etree_parse_file_def ex_world_def ex_lib_def)

lemma ex_raw_json: "raw_json_of (ex_lib raw) t = raw"
  by (simp add: raw_json_of_def ex_lib_def)

lemma prints_run_events: "prints (es @ [Print s, Open a, Write b c, Close d]) = prints es @ [s]"
  by (induction es rule: prints.induct) simp_all

lemma paths_differ: "input_path script \<noteq> output_path script"
  by (simp add: input_path_def output_path_def join_def)

lemma run_snd:
  "snd (run lib script w) =
     (case etree_parse_file lib w (input_path script) of
        Inl e \<Rightarrow> w
      | Inr xml_block \<Rightarrow>
          (case dumps lib MyEncoder 2 (raw_json_of lib xml_block) of
             Inl e \<Rightarrow> w
           | Inr pretty \<Rightarrow>
               if writable w (output_path script)
               then (case dumps lib JSONEncoder 2 (raw_json_of lib xml_block) of
                       Inl e \<Rightarrow> w\<lparr>files := (files w)(output_path script \<mapsto> []),
                          events := events w @ [Print pretty, Open (output_path script),
                            Close (output_path script)]\<rparr>
                     | Inr written \<Rightarrow> w\<lparr>files := (files w)(output_path script \<mapsto> written),
                          events := events w @ [Print pretty, Open (output_path script),
                            Write (output_path script) written, Close (output_path script)]\<rparr>)
               else w\<lparr>events := events w @ [Print pretty]\<rparr>))"
  by (simp add: run_def Let_def print_def open_w_def file_write_def close_def
           split: sum.splits)

lemma run_fst:
  "fst (run lib script w) =
     (case etree_parse_file lib w (input_path script) of
        Inl e \<Rightarrow> Failed e
      | Inr xml_block \<Rightarrow>
          (case dumps lib MyEncoder 2 (raw_json_of lib xml_block) of
             Inl e \<Rightarrow> Failed e
           | Inr pretty \<Rightarrow>
               if writable w (output_path script)
               then (case dumps lib JSONEncoder 2 (raw_json_of lib xml_block) of
                       Inl e \<Rightarrow> Failed e
                     | Inr written \<Rightarrow> Done)
               else Failed IOError))"
  by (simp add: run_def Let_def print_def open_w_def file_write_def close_def
           split: sum.splits)

lemma run_keeps:
  "files (snd (run lib script w)) (input_path script) = files w (input_path script)"
  "readable (snd (run lib script w)) = readable w"
  "writable (snd (run lib script w)) = writable w"
  using paths_differ [of script]
  by (auto simp: run_snd split: sum.splits)

lemma run_parse_again:
  "etree_parse_file lib (snd (run lib script w)) (input_path script)
     = etree_parse_file lib w (input_path script)"
  by (simp add: etree_parse_file_def run_keeps split: option.splits)

lemma ex_writable: "writable ex_world p"
  by (simp add: ex_world_def)

lemma ex_events: "events ex_world = []"
  by (simp add: ex_world_def)

lemma ex_run_Done: "fst (run (ex_lib (PDict [(''a'', PNone)])) ex_script ex_world) = Done"
  by (simp add: run_def ex_parse_file ex_raw_json dumps_def open_w_def print_def ex_writable
        Let_def)

lemma ex_run: "run (ex_lib (PDict [(''a'', PNone)])) ex_script ex_world
      = (Done, snd (run (ex_lib (PDict [(''a'', PNone)])) ex_script ex_world))"
  using ex_run_Done by (metis prod.collapse)

lemma encode_JSONEncoder_fallback:
  "needs_fallback (v :: 'f pyval) \<Longrightarrow> encode JSONEncoder v = Inl SerializationError"
  "needs_fallback_list (vs :: 'f pyval list) \<Longrightarrow> encode_list JSONEncoder vs = Inl SerializationError"
  "needs_fallback_items (kvs :: (string \<times> 'f pyval) list) \<Longrightarrow>
     encode_dict JSONEncoder kvs = Inl SerializationError"
  by (induction v and vs and kvs rule: needs_fallback_needs_fallback_list_needs_fallback_items.induct)
     (auto simp: JSONEncoder_default_def split: sum.splits dest: encode_error)

section \<open>Paths: lemmas\<close>

lemma base_of_join:
  assumes "P = [] \<or> last P = CHR ''/''" and "CHR ''/'' \<notin> set n"
  shows "takeWhile (\<lambda>c. c \<noteq> CHR ''/'') (rev (P @ n)) = rev n"
proof -
  have "takeWhile (\<lambda>c. c \<noteq> CHR ''/'') (rev P) = []"
    using assms(1) by (cases P rule: rev_cases) auto
  moreover have "takeWhile (\<lambda>c. c \<noteq> CHR ''/'') (rev n @ rev P)
      = rev n @ takeWhile (\<lambda>c. c \<noteq> CHR ''/'') (rev P)"
    by (rule takeWhile_append2) (use assms(2) in auto)
  ultimately show ?thesis by simp
qed

lemma dir_prefix_ends: "dir_prefix a = [] \<or> last (dir_prefix a) = CHR ''/''"
  by (simp add: dir_prefix_def)

lemma input_path_prefix:
  "input_path script = dir_prefix (data_path script) @ ''votable_to_json.xml''"
  by (simp add: input_path_def join_def dir_prefix_def)

lemma output_path_prefix:
  "output_path script = dir_prefix (data_path script) @ ''votable_to_json.json''"
  by (simp add: output_path_def join_def dir_prefix_def)

lemma splitext_input:
  assumes "P = [] \<or> last P = CHR ''/''"
  shows "splitext (P @ ''votable_to_json.xml'') = (P @ ''votable_to_json'', ''.xml'')"
proof -
  have "takeWhile (\<lambda>c. c \<noteq> CHR ''/'') (rev (P @ ''votable_to_json.xml''))
      = rev ''votable_to_json.xml''"
    using assms by (rule base_of_join) simp
  then show ?thesis
    by (simp add: splitext_def Let_def)
qed

lemma dirname_join:
  assumes "P = [] \<or> last P = CHR ''/''" and "CHR ''/'' \<notin> set n"
  shows "dirname (P @ n) =
           (if P \<noteq> [] \<and> P \<noteq> replicate (length P) CHR ''/''
            then rev (dropWhile (\<lambda>c. c = CHR ''/'') (rev P)) else P)"
  using base_of_join [OF assms] by (simp add: dirname_def Let_def)

lemma dropWhile_slashes:
  "dropWhile (\<lambda>c. c = CHR ''/'') xs = [] \<longleftrightarrow> xs = replicate (length xs) CHR ''/''"
  by (induction xs) auto

lemma dirname_shape:
  "dirname p = [] \<or> dirname p = replicate (length (dirname p)) CHR ''/''
     \<or> last (dirname p) \<noteq> CHR ''/''"
proof -
  define head where
    "head = take (length p - length (takeWhile (\<lambda>c. c \<noteq> CHR ''/'') (rev p))) p"
  show ?thesis
  proof (cases "head \<noteq> [] \<and> head \<noteq> replicate (length head) CHR ''/''")
    case True
    then have ne: "dropWhile (\<lambda>c. c = CHR ''/'') (rev head) \<noteq> []"
      using dropWhile_slashes [of "rev head"]
      by (metis length_rev rev_replicate rev_rev_ident)
    then have "hd (dropWhile (\<lambda>c. c = CHR ''/'') (rev head)) \<noteq> CHR ''/''"
      by (rule hd_dropWhile)
    with ne have "last (rev (dropWhile (\<lambda>c. c = CHR ''/'') (rev head))) \<noteq> CHR ''/''"
      by (simp add: last_rev)
    with True show ?thesis
      by (simp add: dirname_def Let_def head_def)
  next
    case False
    then show ?thesis
      by (auto simp: dirname_def Let_def head_def)
  qed
qed

lemma dirname_dir_prefix:
  assumes "d = [] \<or> d = replicate (length d) CHR ''/'' \<or> last d \<noteq> CHR ''/''"
    and "CHR ''/'' \<notin> set n"
  shows "dirname (dir_prefix d @ n) = d"
proof -
  consider "d = []" | "d \<noteq> []" "d = replicate (length d) CHR ''/''"
    | "d \<noteq> []" "last d \<noteq> CHR ''/''"
    using assms(1) by blast
  then show ?thesis
  proof cases
    case 1
    then show ?thesis
      using dirname_join [OF dir_prefix_ends assms(2), of d] by (simp add: dir_prefix_def)
  next
    case 2
    then have "last d = CHR ''/''"
      by (metis last_replicate length_0_conv)
    with 2 show ?thesis
      using dirname_join [OF dir_prefix_ends assms(2), of d] by (simp add: dir_prefix_def)
  next
    case 3
    then have "d @ ''/'' \<noteq> replicate (length (d @ ''/'')) CHR ''/''"
      by (metis append_butlast_last_id in_set_conv_decomp in_set_replicate last_in_set
            set_append Un_iff)
    moreover have "dropWhile (\<lambda>c. c = CHR ''/'') (rev d) = rev d"
      using 3 by (cases d rule: rev_cases) auto
    ultimately show ?thesis
      using 3 dirname_join [OF dir_prefix_ends assms(2), of d] by (simp add: dir_prefix_def)
  qed
qed

section \<open>The conversion to a mapping: lemmas\<close>

lemma map_of_push_data:
  "map_of (push_data item k v) k' =
     (if k' = k then collect (map_of item k) [v] else map_of item k')"
  by (induction item k v rule: push_data.induct) (auto split: option.splits)

lemma map_of_child_items:
  "map_of (child_items kids item) t
     = collect (map_of item t) (map element_value (filter (\<lambda>c. tag c = t) kids))"
proof (induction kids arbitrary: item)
  case Nil
  then show ?case by (simp add: child_items_def)
next
  case (Cons kid kids)
  have "child_items (kid # kids) item = child_items kids (push_data item (tag kid) (element_value kid))"
    by (simp add: child_items_def)
  then show ?case
    using Cons.IH [of "push_data item (tag kid) (element_value kid)"]
    by (cases "map_of item t") (auto simp: map_of_push_data)
qed

lemma collect_PList: "collect (Some (PList xs)) vs = Some (PList (xs @ vs))"
  by (induction vs arbitrary: xs) simp_all

lemma collect_None:
  "\<not> is_PList v \<Longrightarrow> collect None (v # w # ws) = Some (PList (v # w # ws))"
  by (cases v) (simp_all add: collect_PList)

lemma element_value_not_PList: "\<not> is_PList (element_value e)"
  by (cases e) (simp add: Let_def split: list.splits option.splits)

lemma collect_values:
  "collect None (map element_value cs) =
     (case cs of [] \<Rightarrow> None | [c] \<Rightarrow> Some (element_value c)
      | _ \<Rightarrow> Some (PList (map element_value cs)))"
proof (cases cs)
  case Nil
  then show ?thesis by simp
next
  case (Cons c ds)
  show ?thesis
  proof (cases ds)
    case Nil
    with Cons show ?thesis by simp
  next
    case (Cons d es)
    with \<open>cs = c # ds\<close> show ?thesis
      using collect_None [OF element_value_not_PList, of c "element_value d" "map element_value es"]
      by simp
  qed
qed

lemma map_of_attrs_None:
  "hd t \<noteq> CHR ''@'' \<Longrightarrow> map_of (map (\<lambda>a. (attr_prefix @ fst a, PStr (snd a))) attrs) t = None"
  by (induction attrs) (auto simp: attr_prefix_def)

lemma map_of_attrs_Some:
  "distinct (map fst attrs) \<Longrightarrow> (n, a) \<in> set attrs \<Longrightarrow>
     map_of (map (\<lambda>a. (attr_prefix @ fst a, PStr (snd a))) attrs) (attr_prefix @ n) = Some (PStr a)"
  by (induction attrs) (auto simp: attr_prefix_def rev_image_eqI)

lemma element_value_child_items:
  "element_value (Element p attrs cd kids) =
     (let item = child_items kids (map (\<lambda>a. (attr_prefix @ fst a, PStr (snd a))) attrs)
      in case item of
           [] \<Rightarrow> (case cd of None \<Rightarrow> PNone | Some s \<Rightarrow> PStr s)
         | _ # _ \<Rightarrow> PDict (case cd of None \<Rightarrow> item
                                | Some s \<Rightarrow> push_data item cdata_key (PStr s)))"
  unfolding child_items_def by simp

lemma child_items_not_Nil: "kids \<noteq> [] \<Longrightarrow> child_items kids item \<noteq> []"
proof (induction kids arbitrary: item)
  case Nil
  then show ?case by simp
next
  case (Cons kid kids)
  have ne: "push_data item k v \<noteq> []" for k and v :: "'a pyval"
    by (cases item) auto
  show ?case
  proof (cases kids)
    case Nil
    then show ?thesis by (simp add: child_items_def ne)
  next
    case (Cons a list)
    then show ?thesis
      using Cons.IH [of "push_data item (tag kid) (element_value kid)"]
      by (simp add: child_items_def)
  qed
qed

lemma element_value_PDict:
  "children e \<noteq> [] \<Longrightarrow> element_value e = PDict (element_item e)"
proof (cases e)
  case (Element p attrs cd kids)
  define item :: "(string \<times> 'a pyval) list" where
    "item = child_items kids (map (\<lambda>a. (attr_prefix @ fst a, PStr (snd a))) attrs)"
  assume "children e \<noteq> []"
  with Element have "item \<noteq> []"
    using child_items_not_Nil by (simp add: item_def)
  then obtain kv rest where "item = kv # rest"
    by (cases item) auto
  with Element show ?thesis
    by (simp add: element_value_child_items element_item_def Let_def item_def [symmetric]
          del: element_value.simps)
qed

lemma map_of_element_item:
  assumes "xml_name t"
  shows "map_of (element_item e) t
     = (case filter (\<lambda>c. tag c = t) (children e) of
          [] \<Rightarrow> None
        | [c] \<Rightarrow> Some (element_value c)
        | cs \<Rightarrow> Some (PList (map element_value cs)))"
proof -
  from assms have "hd t \<noteq> CHR ''@''" and "t \<noteq> cdata_key"
    by (auto simp: xml_name_def cdata_key_def)
  then show ?thesis
    by (simp add: element_item_def Let_def map_of_push_data map_of_child_items
          map_of_attrs_None collect_values split: option.splits list.splits)
qed


lemma map_of_element_item_attr:
  assumes "list_all (\<lambda>c. xml_name (tag c)) (children e)"
    and "distinct (map fst (attributes e))" and "(n, a) \<in> set (attributes e)"
  shows "map_of (element_item e) (attr_prefix @ n) = Some (PStr a)"
proof -
  have "filter (\<lambda>c. tag c = attr_prefix @ n) (children e) = []"
    using assms(1) by (auto simp: filter_empty_conv list_all_iff xml_name_def attr_prefix_def)
  moreover have "attr_prefix @ n \<noteq> cdata_key"
    by (simp add: attr_prefix_def cdata_key_def)
  ultimately show ?thesis
    using assms(2,3)
    by (simp add: element_item_def Let_def map_of_push_data map_of_child_items
          map_of_attrs_Some split: option.splits)
qed

lemma well_formed_sel:
  "well_formed e \<longleftrightarrow>
     xml_name (tag e) \<and> list_all (\<lambda>a. xml_name (fst a)) (attributes e)
     \<and> distinct (map fst (attributes e)) \<and> list_all well_formed (children e)"
  by (cases e) simp

lemma well_formed_child:
  "well_formed e \<Longrightarrow> c \<in> set (children e) \<Longrightarrow> xml_name (tag c)"
proof -
  assume "well_formed e" and "c \<in> set (children e)"
  then have "well_formed c"
    using well_formed_sel [of e] by (simp add: list_all_iff)
  then show ?thesis
    using well_formed_sel [of c] by simp
qed

lemma element_value_neq_PList: "element_value e \<noteq> PList xs"
proof
  assume "element_value e = PList xs"
  then have "is_PList (element_value e :: 'a pyval)"
    by (simp del: element_value.simps)
  then show False
    by (simp add: element_value_not_PList)
qed

lemma subvalues_self: "v \<in> set (subvalues v)"
  by (cases v) simp_all

lemma subvalues_trans:
  "u \<in> set (subvalues v) \<Longrightarrow> v \<in> set (subvalues w) \<Longrightarrow> u \<in> set (subvalues w)"
proof (induction w rule: subvalues.induct)
  case (1 xs)
  then show ?case by (cases "v = PList xs") auto
next
  case (2 kvs)
  then show ?case by (cases "v = PDict kvs") auto
next
  case (3 xs)
  then show ?case by (cases "v = NdArray xs") auto
qed auto

lemma members_push_data:
  "\<not> is_PList v \<Longrightarrow> members (push_data item k v) = members item \<union> {v}"
proof (induction item k v rule: push_data.induct)
  case (1 key data)
  then show ?case by (cases data) (simp_all add: members_def)
next
  case (2 kv item key data)
  show ?case
  proof (cases "fst kv = key")
    case True
    then show ?thesis
      by (cases "snd kv") (auto simp: members_def)
  next
    case False
    with 2 show ?thesis
      by (auto simp: members_def)
  qed
qed

lemma members_child_items:
  "members (child_items kids item) = members item \<union> element_value ` set kids"
proof (induction kids arbitrary: item)
  case Nil
  then show ?case by (simp add: child_items_def)
next
  case (Cons kid kids)
  have "child_items (kid # kids) item = child_items kids (push_data item (tag kid) (element_value kid))"
    by (simp add: child_items_def)
  then show ?case
    using Cons.IH [of "push_data item (tag kid) (element_value kid)"]
    by (simp add: members_push_data element_value_not_PList del: element_value.simps)
qed

lemma members_element_item:
  "element_value ` set (children e) \<subseteq> members (element_item e)"
  by (auto simp: element_item_def Let_def members_child_items members_push_data
        simp del: element_value.simps split: option.splits)

lemma members_subvalues: "v \<in> members item \<Longrightarrow> v \<in> set (subvalues (PDict item))"
proof -
  assume "v \<in> members item"
  then obtain kv where kv: "kv \<in> set item" and v: "v \<in> (case snd kv of PList xs \<Rightarrow> set xs | u \<Rightarrow> {u})"
    by (auto simp: members_def)
  have "v \<in> set (subvalues (snd kv))"
    using v subvalues_self [of v] by (cases "snd kv") auto
  with kv show ?thesis by auto
qed

lemma child_value_subvalue:
  assumes "c \<in> set (children e)"
  shows "(element_value c :: 'f pyval) \<in> set (subvalues (element_value e))"
proof -
  from assms have "children e \<noteq> []" by auto
  then have "(element_value e :: 'f pyval) = PDict (element_item e)"
    by (rule element_value_PDict)
  moreover have "(element_value c :: 'f pyval) \<in> members (element_item e)"
    using assms members_element_item [of e] by blast
  ultimately show ?thesis
    using members_subvalues [of "element_value c" "element_item e"]
    by (simp del: element_value.simps subvalues.simps)
qed

lemma elements_value_subvalue:
  "e \<in> set (elements root) \<Longrightarrow>
     (element_value e :: 'f pyval) \<in> set (subvalues (element_value root))"
proof (induction root rule: elements.induct)
  case (1 t attrs cd kids)
  show ?case
  proof (cases "e = Element t attrs cd kids")
    case True
    then show ?thesis by (simp add: subvalues_self del: element_value.simps)
  next
    case False
    with 1(2) obtain kid where kid: "kid \<in> set kids" and "e \<in> set (elements kid)"
      by auto
    then have "(element_value e :: 'f pyval) \<in> set (subvalues (element_value kid))"
      using 1(1) by blast
    moreover have "(element_value kid :: 'f pyval)
        \<in> set (subvalues (element_value (Element t attrs cd kids)))"
      using kid child_value_subvalue [of kid "Element t attrs cd kids"] by simp
    ultimately show ?thesis
      by (rule subvalues_trans)
  qed
qed

lemma elements_in_mapping:
  "e \<in> set (elements root) \<Longrightarrow> element_value e \<in> set (subvalues (toMapping root))"
  by (simp add: toMapping_def elements_value_subvalue del: element_value.simps)

lemma well_formed_elements:
  "well_formed root \<Longrightarrow> e \<in> set (elements root) \<Longrightarrow> well_formed e"
proof (induction root rule: elements.induct)
  case (1 t attrs cd kids)
  then show ?case
    by (auto simp: list_all_iff)
qed

lemma ex_nested_wf: "well_formed ex_nested"
  by (simp add: ex_nested_def ex_repeated_def ex_single_def xml_name_def)

lemma ex_nested_elements:
  "ex_repeated \<in> set (elements ex_nested)"
  "ex_single \<in> set (elements ex_nested)"
  by (simp_all add: ex_nested_def ex_repeated_def ex_single_def)

section \<open>The claims\<close>




text \<open>
  C2. In a run that completes, the text printed to standard output and the text written to
  the output file are read back as equal values by any reader \<open>loads\<close>: the two texts are
  the same, and standard output only adds the newline of \<^verbatim>\<open>print\<close>.
\<close>

theorem console_file_agree:
  assumes "run lib script w = (Done, w')"
  shows "\<exists>pretty written.
           events w' = events w @ [Print pretty, Open (output_path script),
              Write (output_path script) written, Close (output_path script)]
         \<and> files w' (output_path script) = Some written
         \<and> stdout_of (events w') = stdout_of (events w) @ pretty @ [CHR 0x0A]
         \<and> loads pretty = loads written"
proof -
  from assms obtain xml_block pretty and written :: string where
    p: "dumps lib MyEncoder 2 (raw_json_of lib xml_block) = Inr pretty" and
    t: "dumps lib JSONEncoder 2 (raw_json_of lib xml_block) = Inr written" and
    w': "w' = w\<lparr>files := (files w)(output_path script \<mapsto> written),
               events := events w @ [Print pretty, Open (output_path script),
                 Write (output_path script) written, Close (output_path script)]\<rparr>"
    unfolding run_Done_iff by blast
  from t p have "pretty = written"
    by (simp add: dumps_JSONEncoder_MyEncoder)
  moreover have "stdout_of (es @ [Print pretty, Open a, Write b c, Close d])
      = stdout_of es @ pretty @ [CHR 0x0A]" for es a b c d
    by (induction es rule: stdout_of.induct) simp_all
  ultimately show ?thesis using w' by simp
qed

theorem console_file_agree_witness:
  "fst (run (ex_lib (PDict [(''a'', PNone)])) ex_script ex_world) = Done
   \<and> (\<exists>pretty written.
         events (snd (run (ex_lib (PDict [(''a'', PNone)])) ex_script ex_world))
           = events ex_world @ [Print pretty, Open (output_path ex_script),
               Write (output_path ex_script) written, Close (output_path ex_script)]
       \<and> files (snd (run (ex_lib (PDict [(''a'', PNone)])) ex_script ex_world))
           (output_path ex_script) = Some written
       \<and> stdout_of (events (snd (run (ex_lib (PDict [(''a'', PNone)])) ex_script ex_world)))
           = stdout_of (events ex_world) @ pretty @ [CHR 0x0A]
       \<and> pretty = written)"
  using console_file_agree [OF ex_run, of "\<lambda>s. s"] ex_run_Done
  by simp

text \<open>
  C3 (as amended). For every element of a well-formed document, the mapping built for it
  is part of the intermediate structure, and two or more of its child elements with one
  tag are represented in it by a sequence under that tag: one entry for each of them, the
  values of the elements in document order. A single child element with its tag is
  represented by its own value under that tag, not by a sequence.
\<close>

theorem repeated_siblings_sequence:
  assumes "well_formed root"
    and "e \<in> set (elements root)"
    and "cs = filter (\<lambda>c. tag c = t) (children e)"
  shows "(2 \<le> length cs \<longrightarrow>
            PDict (element_item e) \<in> set (subvalues (toMapping root :: 'f pyval))
          \<and> (element_value e :: 'f pyval) = PDict (element_item e)
          \<and> map_of (element_item e :: (string \<times> 'f pyval) list) t
              = Some (PList (map element_value cs))
          \<and> length (map (element_value :: xml \<Rightarrow> 'f pyval) cs) = length cs)
       \<and> (length cs = 1 \<longrightarrow>
            PDict (element_item e) \<in> set (subvalues (toMapping root :: 'f pyval))
          \<and> (element_value e :: 'f pyval) = PDict (element_item e)
          \<and> map_of (element_item e :: (string \<times> 'f pyval) list) t
              = Some (element_value (hd cs)))"
proof -
  have wf: "well_formed e"
    using assms(1,2) by (rule well_formed_elements)
  have sub: "(element_value e :: 'f pyval) \<in> set (subvalues (toMapping root))"
    using assms(2) by (rule elements_in_mapping)
  have key: "xml_name t \<and> children e \<noteq> []" if "c \<in> set cs" for c
  proof -
    from that assms(3) have "c \<in> set (children e)" and "tag c = t"
      by simp_all
    with wf show ?thesis
      using well_formed_child [of e c] by auto
  qed
  show ?thesis
  proof (intro conjI impI)
    assume "2 \<le> length cs"
    then obtain c d ds where cs: "cs = c # d # ds"
      by (auto simp: numeral_2_eq_2 Suc_le_length_iff)
    then have "xml_name t" and "children e \<noteq> []"
      using key [of c] by simp_all
    then have v: "(element_value e :: 'f pyval) = PDict (element_item e)"
      and m: "map_of (element_item e :: (string \<times> 'f pyval) list) t
                = Some (PList (map element_value cs))"
      using cs assms(3) by (simp_all add: element_value_PDict map_of_element_item)
    from v sub show "PDict (element_item e) \<in> set (subvalues (toMapping root :: 'f pyval))"
      by (simp del: element_value.simps subvalues.simps)
    from v show "(element_value e :: 'f pyval) = PDict (element_item e)" .
    from m show "map_of (element_item e :: (string \<times> 'f pyval) list) t
                = Some (PList (map element_value cs))" .
    show "length (map (element_value :: xml \<Rightarrow> 'f pyval) cs) = length cs"
      by simp
  next
    assume "length cs = 1"
    then obtain c where cs: "cs = [c]"
      by (cases cs) auto
    then have "xml_name t" and "children e \<noteq> []"
      using key [of c] by simp_all
    then have v: "(element_value e :: 'f pyval) = PDict (element_item e)"
      and m: "map_of (element_item e :: (string \<times> 'f pyval) list) t
                = Some (element_value (hd cs))"
      using cs assms(3) by (simp_all add: element_value_PDict map_of_element_item)
    from v sub show "PDict (element_item e) \<in> set (subvalues (toMapping root :: 'f pyval))"
      by (simp del: element_value.simps subvalues.simps)
    from v show "(element_value e :: 'f pyval) = PDict (element_item e)" .
    from m show "map_of (element_item e :: (string \<times> 'f pyval) list) t
                = Some (element_value (hd cs))" .
  qed
qed

theorem repeated_siblings_sequence_witness:
  "well_formed ex_nested
   \<and> ex_repeated \<in> set (elements ex_nested)
   \<and> filter (\<lambda>c. tag c = ''b'') (children ex_repeated)
       = [Element ''b'' [] (Some ''t'') [], Element ''b'' [(''k'', ''v'')] (Some ''u'') []]
   \<and> PDict (element_item ex_repeated) \<in> set (subvalues (toMapping ex_nested :: string pyval))
   \<and> map_of (element_item ex_repeated :: (string \<times> string pyval) list) ''b''
       = Some (PList [PStr ''t'', PDict [(''@k'', PStr ''v''), (''#text'', PStr ''u'')]])
   \<and> ex_single \<in> set (elements ex_nested)
   \<and> filter (\<lambda>c. tag c = ''b'') (children ex_single) = [Element ''b'' [] None []]
   \<and> PDict (element_item ex_single) \<in> set (subvalues (toMapping ex_nested :: string pyval))
   \<and> map_of (element_item ex_single :: (string \<times> string pyval) list) ''b'' = Some PNone"
  using repeated_siblings_sequence [OF ex_nested_wf ex_nested_elements(1) refl, of "''b''"]
    repeated_siblings_sequence [OF ex_nested_wf ex_nested_elements(2) refl, of "''b''"]
  by (simp add: ex_nested_def ex_repeated_def ex_single_def element_item_def child_items_def
        attr_prefix_def cdata_key_def xml_name_def toMapping_def)

text \<open>
  C3 as stated fails for one element: in \<^verbatim>\<open><a><b/></a>\<close> the element \<^verbatim>\<open>b\<close> is the only child
  with its tag, and the mapping holds its value, not a sequence of length one.
\<close>

theorem single_sibling_counterexample:
  "well_formed ex_single
   \<and> filter (\<lambda>c. tag c = ''b'') (children ex_single) = [Element ''b'' [] None []]
   \<and> (toMapping ex_single :: string pyval) = PDict [(''a'', PDict [(''b'', PNone)])]
   \<and> (toMapping ex_single :: string pyval) \<noteq> PDict [(''a'', PDict [(''b'', PList [PNone])])]"
  by (simp add: ex_single_def toMapping_def xml_name_def)

text \<open>
  C4. When an element of a well-formed document has an attribute and a child element of
  one name, its mapping, a part of the intermediate structure, holds both: the attribute
  value, a string, under the name with the reserved prefix, and the value of the child (of
  the children, when the tag is repeated) under the name itself; the two keys differ.
\<close>

theorem attribute_child_distinct_keys:
  assumes "well_formed root"
    and "e \<in> set (elements root)"
    and "(n, a) \<in> set (attributes e)"
    and "c \<in> set (children e)" and "tag c = n"
  shows "PDict (element_item e) \<in> set (subvalues (toMapping root :: 'f pyval))
       \<and> (element_value e :: 'f pyval) = PDict (element_item e)
       \<and> attr_prefix @ n \<noteq> n
       \<and> map_of (element_item e :: (string \<times> 'f pyval) list) (attr_prefix @ n) = Some (PStr a)
       \<and> map_of (element_item e :: (string \<times> 'f pyval) list) n =
           (case filter (\<lambda>c. tag c = n) (children e) of
              [] \<Rightarrow> None
            | [c] \<Rightarrow> Some (element_value c)
            | c # d # ds \<Rightarrow> Some (PList (map element_value (c # d # ds))))
       \<and> map_of (element_item e :: (string \<times> 'f pyval) list) n \<noteq> None"
proof -
  have wfe: "well_formed e"
    using assms(1,2) by (rule well_formed_elements)
  have sub: "(element_value e :: 'f pyval) \<in> set (subvalues (toMapping root))"
    using assms(2) by (rule elements_in_mapping)
  from wfe assms(3-5) have wf: "xml_name n" "children e \<noteq> []"
    "distinct (map fst (attributes e))" "list_all (\<lambda>c. xml_name (tag c)) (children e)"
    using well_formed_child [of e] by (auto simp: well_formed_sel [of e] list_all_iff)
  then have v: "(element_value e :: 'f pyval) = PDict (element_item e)"
    by (simp add: element_value_PDict)
  with sub have "PDict (element_item e) \<in> set (subvalues (toMapping root :: 'f pyval))"
    by (simp del: element_value.simps subvalues.simps)
  moreover from assms(4,5) have "filter (\<lambda>c. tag c = n) (children e) \<noteq> []"
    by (auto simp: filter_empty_conv)
  moreover have "attr_prefix @ n \<noteq> n"
    by (simp add: attr_prefix_def)
  ultimately show ?thesis
    using wf assms(3) v
    by (simp add: map_of_element_item map_of_element_item_attr
          del: element_value.simps subvalues.simps split: list.splits)
qed

theorem attribute_child_distinct_keys_witness:
  "well_formed ex_nested
   \<and> ex_repeated \<in> set (elements ex_nested)
   \<and> (''x'', ''1'') \<in> set (attributes ex_repeated)
   \<and> Element ''x'' [] None [] \<in> set (children ex_repeated)
   \<and> PDict (element_item ex_repeated) \<in> set (subvalues (toMapping ex_nested :: string pyval))
   \<and> map_of (element_item ex_repeated :: (string \<times> string pyval) list) ''@x'' = Some (PStr ''1'')
   \<and> map_of (element_item ex_repeated :: (string \<times> string pyval) list) ''x'' = Some PNone"
  using attribute_child_distinct_keys [OF ex_nested_wf ex_nested_elements(1),
          of "''x''" "''1''" "Element ''x'' [] None []"]
  by (simp add: ex_nested_def ex_repeated_def ex_single_def element_item_def child_items_def
        attr_prefix_def cdata_key_def xml_name_def toMapping_def)

text \<open>
  C5. Running the conversion a second time, on the world the first run left (the input
  file is unchanged by the run), ends the same way and leaves the same contents in the
  output file as the first run did.
\<close>

theorem run_twice_same_output:
  "fst (run lib script (snd (run lib script w))) = fst (run lib script w)
   \<and> files (snd (run lib script (snd (run lib script w)))) (input_path script)
       = files w (input_path script)
   \<and> files (snd (run lib script (snd (run lib script w)))) (output_path script)
       = files (snd (run lib script w)) (output_path script)"
proof -
  have "fst (run lib script (snd (run lib script w))) = fst (run lib script w)"
    by (auto simp: run_fst run_parse_again run_keeps split: sum.splits)
  moreover have "files (snd (run lib script (snd (run lib script w)))) (output_path script)
       = files (snd (run lib script w)) (output_path script)"
    by (simp add: run_snd [of lib script "snd (run lib script w)"] run_parse_again run_keeps
          split: sum.splits)
       (auto simp: run_snd split: sum.splits)
  ultimately show ?thesis by (simp add: run_keeps)
qed

text \<open>
  C6. When the input file is missing, cannot be read or is not well-formed XML, the run
  fails with the parse error and a non-zero exit status, and the world is left as it was:
  the output file is neither created nor modified, and nothing is printed.
\<close>

theorem parse_failure_is_fatal:
  assumes "files w (input_path script) = None
           \<or> \<not> readable w (input_path script)
           \<or> (\<exists>bytes. files w (input_path script) = Some bytes \<and> etree_parse lib bytes = None)"
  shows "run lib script w = (Failed ParseError, w)
         \<and> exit_code (fst (run lib script w)) \<noteq> 0
         \<and> files (snd (run lib script w)) (output_path script) = files w (output_path script)
         \<and> events (snd (run lib script w)) = events w"
proof -
  from assms have "etree_parse_file lib w (input_path script) = Inl ParseError"
    by (auto simp: etree_parse_file_def split: option.splits)
  then have "run lib script w = (Failed ParseError, w)"
    by (simp add: run_def)
  then show ?thesis by simp
qed

theorem parse_failure_is_fatal_witness:
  "run (ex_lib PNone) ex_script (ex_world\<lparr>files := Map.empty\<rparr>)
     = (Failed ParseError, ex_world\<lparr>files := Map.empty\<rparr>)
   \<and> run (ex_lib PNone) ex_script (ex_world\<lparr>readable := (\<lambda>p. False)\<rparr>)
     = (Failed ParseError, ex_world\<lparr>readable := (\<lambda>p. False)\<rparr>)
   \<and> run (ex_lib PNone) ex_script (ex_world\<lparr>files := [input_path ex_script \<mapsto> ''<a>'']\<rparr>)
     = (Failed ParseError, ex_world\<lparr>files := [input_path ex_script \<mapsto> ''<a>'']\<rparr>)
   \<and> exit_code (fst (run (ex_lib PNone) ex_script (ex_world\<lparr>files := Map.empty\<rparr>))) = 1"
  using parse_failure_is_fatal [of "ex_world\<lparr>files := Map.empty\<rparr>" ex_script "ex_lib PNone"]
        parse_failure_is_fatal [of "ex_world\<lparr>readable := (\<lambda>p. False)\<rparr>" ex_script
           "ex_lib PNone"]
        parse_failure_is_fatal [of "ex_world\<lparr>files := [input_path ex_script \<mapsto> ''<a>'']\<rparr>"
           ex_script "ex_lib PNone"]
  by (simp add: ex_lib_def)

text \<open>
  C7. Serialization with \<^verbatim>\<open>MyEncoder\<close> fails, with a serialization error, exactly when the
  structure holds a value whose type is not string, number, boolean, null, mapping,
  sequence, numpy integer, numpy floating or numpy ndarray; when every value is of one of
  those types it returns a text.
\<close>

theorem serialize_fails_iff_unsupported:
  "(supported obj \<longrightarrow> (\<exists>s. dumps lib MyEncoder 2 obj = Inr s))
   \<and> (\<not> supported obj \<longrightarrow> dumps lib MyEncoder 2 obj = Inl SerializationError)"
  by (simp add: dumps_def encode_MyEncoder_supported(1) encode_unsupported(1))

theorem serialize_fails_iff_unsupported_witness:
  "supported (PList [PStr ''a'', NpInteger 1, NdArray [PInt 2]] :: string pyval)
   \<and> (\<exists>s. dumps (ex_lib PNone) MyEncoder 2 (PList [PStr ''a'', NpInteger 1, NdArray [PInt 2]])
          = Inr s)
   \<and> \<not> supported (PList [PStr ''a'', PObject ''set''] :: string pyval)
   \<and> dumps (ex_lib PNone) MyEncoder 2 (PList [PStr ''a'', PObject ''set''])
       = Inl SerializationError"
  using serialize_fails_iff_unsupported
          [of "PList [PStr ''a'', NpInteger 1, NdArray [PInt 2]]" "ex_lib PNone"]
        serialize_fails_iff_unsupported
          [of "PList [PStr ''a'', PObject ''set'']" "ex_lib PNone"]
  by simp

text \<open>
  C8. The path of the output file is the path of the input file with its extension
  \<^verbatim>\<open>.xml\<close> replaced by \<^verbatim>\<open>.json\<close>, and both files are in the same directory, the one of the
  script. (The script writes both names as literals; the relation holds between them.)
\<close>

theorem output_path_replaces_extension:
  "output_path script = replace_extension (input_path script) ''.json''
   \<and> snd (splitext (input_path script)) = ''.xml''
   \<and> dirname (input_path script) = data_path script
   \<and> dirname (output_path script) = data_path script"
  using dirname_shape [of script]
  by (simp add: replace_extension_def input_path_prefix output_path_prefix
        splitext_input [OF dir_prefix_ends] dirname_dir_prefix data_path_def)

text \<open>
  C9. In a run that completes, the rendering of the structure with an indentation of two
  spaces is printed exactly once, and the print is the first event of the run: the output
  file is opened and written after it.
\<close>

theorem print_once_before_write:
  assumes "run lib script w = (Done, w')"
  shows "\<exists>xml_block j written.
           etree_parse_file lib w (input_path script) = Inr xml_block
         \<and> encode MyEncoder (raw_json_of lib xml_block) = Inr j
         \<and> events w' = events w @ [Print (render lib 2 0 j), Open (output_path script),
              Write (output_path script) written, Close (output_path script)]
         \<and> prints (events w') = prints (events w) @ [render lib 2 0 j]"
proof -
  from assms obtain xml_block pretty and written :: string where
    x: "etree_parse_file lib w (input_path script) = Inr xml_block" and
    p: "dumps lib MyEncoder 2 (raw_json_of lib xml_block) = Inr pretty" and
    w': "w' = w\<lparr>files := (files w)(output_path script \<mapsto> written),
               events := events w @ [Print pretty, Open (output_path script),
                 Write (output_path script) written, Close (output_path script)]\<rparr>"
    unfolding run_Done_iff by blast
  from p obtain j where j: "encode MyEncoder (raw_json_of lib xml_block) = Inr j"
    and "pretty = render lib 2 0 j"
    by (auto simp: dumps_def split: sum.splits)
  with x w' show ?thesis
    by (simp add: prints_run_events)
qed

theorem print_once_before_write_witness:
  "fst (run (ex_lib (PDict [(''a'', PNone)])) ex_script ex_world) = Done
   \<and> (\<exists>xml_block j written.
         etree_parse_file (ex_lib (PDict [(''a'', PNone)])) ex_world (input_path ex_script)
           = Inr xml_block
       \<and> encode MyEncoder (raw_json_of (ex_lib (PDict [(''a'', PNone)])) xml_block) = Inr j
       \<and> events (snd (run (ex_lib (PDict [(''a'', PNone)])) ex_script ex_world))
           = events ex_world @ [Print (render (ex_lib (PDict [(''a'', PNone)])) 2 0 j),
               Open (output_path ex_script), Write (output_path ex_script) written,
               Close (output_path ex_script)]
       \<and> prints (events (snd (run (ex_lib (PDict [(''a'', PNone)])) ex_script ex_world)))
           = prints (events ex_world) @ [render (ex_lib (PDict [(''a'', PNone)])) 2 0 j])"
  using print_once_before_write [OF ex_run] ex_run_Done
  by simp

text \<open>
  C10 (as amended). The serialization for the output file does not use \<^verbatim>\<open>MyEncoder\<close>. When
  every value of the structure is of a supported type and one of them is a numpy integer,
  a numpy array or a numpy floating-point value that is not a built-in \<^verbatim>\<open>float\<close>, and the
  output file can be opened for writing, then the print succeeds, the second
  \<^verbatim>\<open>json.dumps\<close> raises the serialization error, and it does so after the output file has
  been opened: the run fails and leaves the output file empty.
\<close>

theorem file_write_lacks_fallback:
  assumes "etree_parse_file lib w (input_path script) = Inr xml_block"
    and "supported (raw_json_of lib xml_block)"
    and "needs_fallback (raw_json_of lib xml_block)"
    and "writable w (output_path script)"
  shows "dumps lib MyEncoder 2 (raw_json_of lib xml_block)
           = Inr (render lib 2 0 (plain_json (raw_json_of lib xml_block)))
       \<and> dumps lib JSONEncoder 2 (raw_json_of lib xml_block) = Inl SerializationError
       \<and> run lib script w =
           (Failed SerializationError,
            w\<lparr>files := (files w)(output_path script \<mapsto> []),
              events := events w @
                [Print (render lib 2 0 (plain_json (raw_json_of lib xml_block))),
                 Open (output_path script), Close (output_path script)]\<rparr>)"
proof -
  have p: "dumps lib MyEncoder 2 (raw_json_of lib xml_block)
           = Inr (render lib 2 0 (plain_json (raw_json_of lib xml_block)))"
    using assms(2) by (simp add: dumps_def encode_MyEncoder_supported(1))
  have f: "dumps lib JSONEncoder 2 (raw_json_of lib xml_block) = Inl SerializationError"
    using assms(3) by (simp add: dumps_def encode_JSONEncoder_fallback(1))
  from p f assms(1,4) show ?thesis
    by (simp add: run_def Let_def print_def open_w_def close_def)
qed

theorem file_write_lacks_fallback_witness:
  "supported (PDict [(''n'', NpInteger 7)] :: string pyval)
   \<and> needs_fallback (PDict [(''n'', NpInteger 7)] :: string pyval)
   \<and> writable ex_world (output_path ex_script)
   \<and> run (ex_lib (PDict [(''n'', NpInteger 7)])) ex_script ex_world =
     (Failed SerializationError,
      ex_world\<lparr>files := (files ex_world)(output_path ex_script \<mapsto> []),
        events := [Print (render (ex_lib (PDict [(''n'', NpInteger 7)])) 2 0
                            (JObj [(''n'', JInt 7)])),
                   Open (output_path ex_script), Close (output_path ex_script)]\<rparr>)"
  using file_write_lacks_fallback [of "ex_lib (PDict [(''n'', NpInteger 7)])" ex_world ex_script,
          OF ex_parse_file]
  by (simp add: ex_raw_json ex_writable ex_events)

text \<open>
  C10 as stated fails in three ways. A \<^verbatim>\<open>numpy.float64\<close> is a built-in \<^verbatim>\<open>float\<close>: the encoder
  of the output file encodes it and the run completes. A structure that holds a numpy
  integer beside an object of an unsupported type is not printed either: the first
  \<^verbatim>\<open>json.dumps\<close> already fails. And when the output file cannot be opened, the run ends
  with that error after the print, before the second \<^verbatim>\<open>json.dumps\<close> is reached.
\<close>

theorem file_write_fallback_counterexample:
  "contains_numpy (NpFloat64 ''1.5'')
   \<and> dumps (ex_lib (NpFloat64 ''1.5'')) JSONEncoder 2 (NpFloat64 ''1.5'') = Inr ''1.5''
   \<and> fst (run (ex_lib (NpFloat64 ''1.5'')) ex_script ex_world) = Done
   \<and> contains_numpy (PList [NpInteger 1, PObject ''set''])
   \<and> dumps (ex_lib (PList [NpInteger 1, PObject ''set''])) MyEncoder 2
        (PList [NpInteger 1, PObject ''set'']) = Inl SerializationError
   \<and> run (ex_lib (PList [NpInteger 1, PObject ''set''])) ex_script ex_world
       = (Failed SerializationError, ex_world)
   \<and> contains_numpy (NpInteger 7)
   \<and> run (ex_lib (NpInteger 7)) ex_script (ex_world\<lparr>writable := (\<lambda>p. False)\<rparr>)
       = (Failed IOError, ex_world\<lparr>writable := (\<lambda>p. False), events := [Print ''7'']\<rparr>)"
proof -
  have "etree_parse_file (ex_lib (NpInteger 7)) (ex_world\<lparr>writable := (\<lambda>p. False)\<rparr>)
          (input_path ex_script) = Inr ''<a/>''"
    by (simp add: ex_input_path etree_parse_file_def ex_world_def ex_lib_def)
  then have "run (ex_lib (NpInteger 7)) ex_script (ex_world\<lparr>writable := (\<lambda>p. False)\<rparr>)
       = (Failed IOError, ex_world\<lparr>writable := (\<lambda>p. False), events := [Print ''7'']\<rparr>)"
    by (simp add: run_def ex_raw_json dumps_def open_w_def print_def Let_def intstr_def
          digits.simps ex_events)
  then show ?thesis
    by (simp add: run_def ex_parse_file ex_raw_json dumps_def open_w_def print_def ex_writable
          Let_def JSONEncoder_default_def)
       (simp add: ex_lib_def)
qed

end
